theory Spec2Isabelle
  imports Complex_Main "HOL-Library.Char_ord" "HOL-Library.List_Lexorder"
begin

section \<open>Strings as Python sees them\<close>

text \<open>
  A Python \<open>str\<close> is modelled as a \<open>string\<close>, each \<open>char\<close> standing for the code
  point with the same number (0 to 255, the Latin-1 range, which contains every
  character of an ASCII host name). The string methods below are the ones
  \<open>scripts/discover.py\<close> calls, restricted to that range: \<open>str.isspace\<close> holds of
  the code points 9 to 13, 28 to 32, 133 and 160, and \<open>str.lower\<close> moves A to Z and
  the accented capitals 192 to 222 (215, the multiplication sign, apart) up by 32.
\<close>

definition py_isspace :: "char \<Rightarrow> bool" where
  "py_isspace c =
     (let n = (of_char c :: nat)
      in (9 \<le> n \<and> n \<le> 13) \<or> (28 \<le> n \<and> n \<le> 32) \<or> n = 133 \<or> n = 160)"

definition py_lstrip :: "string \<Rightarrow> string" where
  "py_lstrip s = dropWhile py_isspace s"

definition py_rstrip :: "string \<Rightarrow> string" where
  "py_rstrip s = rev (dropWhile py_isspace (rev s))"

definition py_strip :: "string \<Rightarrow> string" where
  "py_strip s = py_rstrip (py_lstrip s)"

definition py_lower_char :: "char \<Rightarrow> char" where
  "py_lower_char c =
     (let n = (of_char c :: nat)
      in if (65 \<le> n \<and> n \<le> 90) \<or> (192 \<le> n \<and> n \<le> 222 \<and> n \<noteq> 215)
         then char_of (n + 32) else c)"

definition py_lower :: "string \<Rightarrow> string" where
  "py_lower s = map py_lower_char s"

definition py_startswith :: "string \<Rightarrow> string \<Rightarrow> bool" where
  "py_startswith p s = (take (length p) s = p)"

text \<open>\<open>s.find(sep)\<close>: the index of the leftmost occurrence of \<open>sep\<close> in \<open>s\<close>.\<close>

fun py_find :: "string \<Rightarrow> string \<Rightarrow> nat option" where
  "py_find sep [] = (if sep = [] then Some 0 else None)"
| "py_find sep (c # cs) =
     (if py_startswith sep (c # cs) then Some 0
      else map_option Suc (py_find sep cs))"

text \<open>
  \<open>s.split(sep, 1)\<close> for a non-empty separator: the whole string when \<open>sep\<close> does not
  occur, otherwise the parts before and after its leftmost occurrence.
\<close>

definition py_split1 :: "string \<Rightarrow> string \<Rightarrow> string list" where
  "py_split1 sep s =
     (case py_find sep s of
        None \<Rightarrow> [s]
      | Some i \<Rightarrow> [take i s, drop (i + length sep) s])"

text \<open>
  \<open>xs[:m]\<close>: the first \<open>m\<close> elements, and for a negative \<open>m\<close> all but the last
  \<open>-m\<close>.
\<close>

definition py_slice_to :: "int \<Rightarrow> 'a list \<Rightarrow> 'a list" where
  "py_slice_to m xs =
     (if 0 \<le> m then take (nat m) xs else take (nat (int (length xs) + m)) xs)"

section \<open>Domain normalisation (\<open>scripts/discover.py\<close>)\<close>

text \<open>
  \<open>normalize_domain\<close>, line by line. \<open>raw or ""\<close> is \<open>raw\<close> itself on a string;
  \<open>[-1]\<close> and \<open>[0]\<close> are \<open>last\<close> and \<open>hd\<close> of the list \<open>split\<close> returns, which is
  never empty (lemma \<open>py_split1_not_Nil\<close>), so neither index is out of range.
\<close>

definition normalize_domain :: "string \<Rightarrow> string" where
  "normalize_domain raw =
     (let d = py_strip raw;
          d = last (py_split1 ''//'' d);
          d = hd (py_split1 ''/'' d);
          d = hd (py_split1 '':'' d);
          d = py_lower d
      in if py_startswith ''www.'' d then drop 4 d else d)"

text \<open>
  \<open>sorted({normalize_domain(d) for d in domains if normalize_domain(d)})\<close>: the set
  of the non-empty normalisations, as a list in ascending order. Python compares
  strings code point by code point, a proper prefix first; that is the order of
  \<open>char list\<close>.
\<close>

definition unique_sorted :: "string list \<Rightarrow> string list" where
  "unique_sorted domains =
     sorted_list_of_set
       (set (map normalize_domain (filter (\<lambda>d. normalize_domain d \<noteq> []) domains)))"

subsection \<open>The normaliser as the specification words it\<close>

text \<open>
  The steps of the specification, each written on its own and without \<open>split\<close>:
  find the first \<open>//\<close> and discard everything up to and including it, truncate at
  the first \<open>/\<close>, truncate at the first \<open>:\<close>, lowercase, strip one leading \<open>www.\<close>.
\<close>

fun after_first_slashes :: "string \<Rightarrow> string option" where
  "after_first_slashes (a # b # cs) =
     (if a = CHR ''/'' \<and> b = CHR ''/'' then Some cs else after_first_slashes (b # cs))"
| "after_first_slashes _ = None"

definition strip_scheme :: "string \<Rightarrow> string" where
  "strip_scheme s = (case after_first_slashes s of None \<Rightarrow> s | Some r \<Rightarrow> r)"

definition truncate_at :: "char \<Rightarrow> string \<Rightarrow> string" where
  "truncate_at c s = takeWhile (\<lambda>x. x \<noteq> c) s"

definition strip_www :: "string \<Rightarrow> string" where
  "strip_www s =
     (case s of
        a # b # c # d # rest \<Rightarrow> if [a, b, c, d] = ''www.'' then rest else s
      | _ \<Rightarrow> s)"

definition normalize_spec :: "string \<Rightarrow> string" where
  "normalize_spec raw =
     strip_www (py_lower (truncate_at CHR '':''
       (truncate_at CHR ''/'' (strip_scheme (py_strip raw)))))"

definition host_chars :: "string \<Rightarrow> bool" where
  "host_chars s =
     (\<forall>c \<in> set s. c \<noteq> CHR ''/'' \<and> c \<noteq> CHR '':'' \<and> py_lower_char c = c)"

section \<open>Backoff delays (\<open>scripts/discover.py\<close>)\<close>

text \<open>
  The delays are Python floats. The loop only doubles and takes a minimum;
  doubling is exact in binary floating point until it overflows, so on the finite
  values of a configuration the float is the real number modelled here.
  \<open>backoff_loop\<close> is the \<open>for\<close> loop, with the number of iterations left, the list
  \<open>delays\<close> and the variable \<open>cur\<close>.
\<close>

fun backoff_loop :: "nat \<Rightarrow> real \<Rightarrow> real list \<Rightarrow> real \<Rightarrow> real list" where
  "backoff_loop 0 max_s delays cur = delays"
| "backoff_loop (Suc n) max_s delays cur =
     backoff_loop n max_s (delays @ [cur]) (min max_s (cur * 2))"

definition backoff_delays :: "real \<Rightarrow> real \<Rightarrow> int \<Rightarrow> real list" where
  "backoff_delays base max_s attempts =
     backoff_loop (nat (max 0 (attempts - 1))) max_s [] base"

section \<open>Search providers (\<open>scripts/discover.py\<close>)\<close>

text \<open>
  The remote services are the world the providers run in: what the next
  \<open>requests.get\<close> does, whether the \<open>ddgs\<close> package could be imported, and what the
  next iteration over \<open>ddgs.text\<close> does. Each call consumes one entry, so a provider
  call takes the world and returns it advanced. Logging has no effect on a result.
  The rate limiter and the crawl delay only sleep for a positive time, which has no
  effect either; \<open>time.sleep\<close> of a backoff delay raises \<open>ValueError\<close> when the delay
  is negative, and that is kept. The other two errors are those of \<open>main\<close>.
\<close>

datatype py_error = ValueError | PermissionError | SystemExit int

datatype item = Item (item_link: "string option") (item_formattedUrl: "string option")

datatype reply =
    Response int "item list"
  | NetworkError
  | OtherError

datatype hit =
  Hit (hit_href: "string option") (hit_link: "string option") (hit_url: "string option")

record ddg_run =
  hits :: "hit list"
  raises :: bool

text \<open>
  \<open>Response code items\<close>: a response with that status code whose JSON body has these
  items. \<open>NetworkError\<close>: \<open>requests.Timeout\<close>, \<open>requests.ConnectionError\<close> or
  \<open>socket.timeout\<close>. \<open>OtherError\<close>: any other exception of the \<open>try\<close> block, a body
  that is not JSON among them. A \<open>ddg_run\<close> yields its hits and then either ends or
  raises.
\<close>

record world =
  http_replies :: "nat \<Rightarrow> reply"
  http_calls :: nat
  ddgs_available :: bool
  ddg_runs :: "nat \<Rightarrow> ddg_run"
  ddg_calls :: nat

record base_provider =
  queries_made :: int
  daily_quota_threshold :: int
  retry_attempts :: int
  backoff_base_seconds :: real
  backoff_max_seconds :: real

record google_cse_provider = base_provider +
  api_key :: string
  cx :: string

record duckduckgo_provider = base_provider +
  ddg_allowed :: bool
  ddg_crawl_delay :: "real option"

definition can_continue :: "'a base_provider_scheme \<Rightarrow> bool" where
  "can_continue self = (queries_made self < daily_quota_threshold self)"

text \<open>The method \<open>_delays\<close>.\<close>

definition provider_delays :: "'a base_provider_scheme \<Rightarrow> real list" where
  "provider_delays self =
     backoff_delays (backoff_base_seconds self) (backoff_max_seconds self) (retry_attempts self)"

text \<open>Truth of an optional string, and \<open>a or b\<close> on two of them.\<close>

definition truthy :: "string option \<Rightarrow> bool" where
  "truthy v = (case v of None \<Rightarrow> False | Some s \<Rightarrow> s \<noteq> [])"

definition py_or :: "string option \<Rightarrow> string option \<Rightarrow> string option" where
  "py_or a b = (if truthy a then a else b)"

text \<open>The loop \<open>for it in items\<close> of the keyed provider, appending to \<open>results\<close>.\<close>

fun collect_links :: "item list \<Rightarrow> string list \<Rightarrow> string list" where
  "collect_links [] results = results"
| "collect_links (it # items) results =
     (case py_or (item_link it) (item_formattedUrl it) of
        None \<Rightarrow> collect_links items results
      | Some l \<Rightarrow>
          if l = [] then collect_links items results
          else collect_links items (results @ [l]))"

text \<open>
  The inner \<open>while True\<close> of \<open>GoogleCSEProvider.query\<close>: one page, retried.
  \<open>attempt\<close> is the counter on entry. With a non-empty \<open>delays\<close> the index \<open>idx\<close> is
  always in range, so a service that keeps answering 429 is retried for ever: the
  function is partial, and \<open>None\<close> is the call that does not return.
\<close>

partial_function (option) request_with_retry ::
    "real list \<Rightarrow> nat \<Rightarrow> string list \<Rightarrow> world \<Rightarrow> ((py_error + string list) \<times> world) option" where
  "request_with_retry delays attempt results w =
     (let attempt = attempt + 1;
          reply = http_replies w (http_calls w);
          w = w\<lparr>http_calls := http_calls w + 1\<rparr>;
          idx = min (int attempt - 1) (int (length delays) - 1)
      in case reply of
           Response code items \<Rightarrow>
             if code = 200 then Some (Inr (collect_links items results), w)
             else if code = 429 \<or> code = 503 then
               (if 0 \<le> idx \<and> idx < int (length delays) then
                  (if delays ! nat idx < 0 then Some (Inr results, w)
                   else request_with_retry delays attempt results w)
                else Some (Inr results, w))
             else Some (Inr results, w)
         | NetworkError \<Rightarrow>
             (if 0 \<le> idx \<and> idx < int (length delays) then
                (if delays ! nat idx < 0 then Some (Inl ValueError, w)
                 else request_with_retry delays attempt results w)
              else Some (Inr results, w))
         | OtherError \<Rightarrow> Some (Inr results, w))"

text \<open>
  The outer \<open>while len(results) < max_results and start_index <= 91\<close>. The request
  does not carry \<open>start_index\<close>, so every page is the same request issued again.
\<close>

function google_pages ::
    "real list \<Rightarrow> int \<Rightarrow> int \<Rightarrow> string list \<Rightarrow> world \<Rightarrow> ((py_error + string list) \<times> world) option" where
  "google_pages delays max_results start_index results w =
     (if int (length results) < max_results \<and> start_index \<le> 91 then
        (case request_with_retry delays 0 results w of
           None \<Rightarrow> None
         | Some (Inl e, w') \<Rightarrow> Some (Inl e, w')
         | Some (Inr results', w') \<Rightarrow>
             if max_results \<le> int (length results') then Some (Inr results', w')
             else google_pages delays max_results (start_index + 10) results' w')
      else Some (Inr results, w))"
  by pat_completeness auto
termination
  by (relation "measure (\<lambda>(delays, max_results, start_index, results, w). nat (92 - start_index))")
     auto

definition google_query ::
    "google_cse_provider \<Rightarrow> string \<Rightarrow> int \<Rightarrow> world
      \<Rightarrow> ((py_error + string list) \<times> google_cse_provider \<times> world) option" where
  "google_query self keyword max_results w =
     (if \<not> can_continue self then Some (Inr [], self, w)
      else if \<not> (api_key self \<noteq> [] \<and> cx self \<noteq> []) then
        Some (Inr [], self\<lparr>queries_made := queries_made self + 1\<rparr>, w)
      else
        (case google_pages (provider_delays self) max_results 1 [] w of
           None \<Rightarrow> None
         | Some (Inl e, w') \<Rightarrow> Some (Inl e, self, w')
         | Some (Inr results, w') \<Rightarrow>
             Some (Inr (py_slice_to max_results results),
                   self\<lparr>queries_made := queries_made self + 1\<rparr>, w')))"

text \<open>The loop \<open>for r in ddgs.text(...)\<close>, appending to \<open>results\<close>.\<close>

fun collect_urls :: "hit list \<Rightarrow> string list \<Rightarrow> string list" where
  "collect_urls [] results = results"
| "collect_urls (r # rs) results =
     (case py_or (py_or (hit_href r) (hit_link r)) (hit_url r) of
        None \<Rightarrow> collect_urls rs results
      | Some u \<Rightarrow>
          if u = [] then collect_urls rs results
          else collect_urls rs (results @ [u]))"

text \<open>
  The \<open>while True\<close> of \<open>DuckDuckGoProvider.query\<close>. \<open>results\<close> is created before the
  loop and never cleared. The \<open>time.sleep\<close> is in the \<open>except\<close> clause, so its
  \<open>ValueError\<close> leaves the method.
\<close>

function ddg_attempts ::
    "real list \<Rightarrow> nat \<Rightarrow> string list \<Rightarrow> world \<Rightarrow> (py_error + string list) \<times> world" where
  "ddg_attempts delays attempt results w =
     (let attempt = attempt + 1;
          run = ddg_runs w (ddg_calls w);
          w = w\<lparr>ddg_calls := ddg_calls w + 1\<rparr>;
          results = collect_urls (hits run) results
      in if \<not> raises run then (Inr results, w)
         else if attempt \<le> length delays then
           (if delays ! (attempt - 1) < 0 then (Inl ValueError, w)
            else ddg_attempts delays attempt results w)
         else (Inr results, w))"
  by pat_completeness auto
termination
  by (relation "measure (\<lambda>(delays, attempt, results, w). Suc (length delays) - attempt)") auto

definition ddg_query ::
    "duckduckgo_provider \<Rightarrow> string \<Rightarrow> int \<Rightarrow> world
      \<Rightarrow> (py_error + string list) \<times> duckduckgo_provider \<times> world" where
  "ddg_query self keyword max_results w =
     (if \<not> can_continue self then (Inr [], self, w)
      else if \<not> ddgs_available w then
        (Inr [], self\<lparr>queries_made := queries_made self + 1\<rparr>, w)
      else
        (case ddg_attempts (provider_delays self) 0 [] w of
           (Inl e, w') \<Rightarrow> (Inl e, self, w')
         | (Inr results, w') \<Rightarrow>
             (Inr (py_slice_to max_results results),
              self\<lparr>queries_made := queries_made self + 1\<rparr>, w')))"

text \<open>
  The two provider classes as one type, with the methods \<open>main\<close> calls on a provider
  whatever its class.
\<close>

datatype provider = GoogleCSE google_cse_provider | DuckDuckGo duckduckgo_provider



fun under_quota :: "provider \<Rightarrow> bool" where
  "under_quota (GoogleCSE g) = can_continue g"
| "under_quota (DuckDuckGo d) = can_continue d"

fun query ::
    "provider \<Rightarrow> string \<Rightarrow> int \<Rightarrow> world \<Rightarrow> ((py_error + string list) \<times> provider \<times> world) option" where
  "query (GoogleCSE g) keyword max_results w =
     (case google_query g keyword max_results w of
        None \<Rightarrow> None
      | Some (r, g', w') \<Rightarrow> Some (r, GoogleCSE g', w'))"
| "query (DuckDuckGo d) keyword max_results w =
     (case ddg_query d keyword max_results w of
        (r, d', w') \<Rightarrow> Some (r, DuckDuckGo d', w'))"


subsection \<open>The fixtures of \<open>tests/test_integration_discover.py\<close>\<close>




definition ddg_cfg :: duckduckgo_provider where
  "ddg_cfg =
     \<lparr>queries_made = 0, daily_quota_threshold = 2, retry_attempts = 2,
      backoff_base_seconds = 0.001, backoff_max_seconds = 0.002,
      ddg_allowed = True, ddg_crawl_delay = None\<rparr>"

definition always_ok :: "nat \<Rightarrow> reply" where
  "always_ok n = Response 200 [Item (Some ''https://a.com'') None]"


definition quiet_runs :: "nat \<Rightarrow> ddg_run" where
  "quiet_runs n = \<lparr>hits = [], raises = False\<rparr>"

definition flaky_runs :: "nat \<Rightarrow> ddg_run" where
  "flaky_runs n =
     (if n = 0 then \<lparr>hits = [Hit (Some ''https://x.com/a'') None None], raises = True\<rparr>
      else \<lparr>hits = [Hit (Some ''https://x.com/a'') None None,
                     Hit (Some ''https://y.com/b'') None None], raises = False\<rparr>)"

definition ok_world :: world where
  "ok_world =
     \<lparr>http_replies = always_ok, http_calls = 0, ddgs_available = True,
      ddg_runs = quiet_runs, ddg_calls = 0\<rparr>"


definition flaky_world :: world where
  "flaky_world = ok_world\<lparr>ddg_runs := flaky_runs\<rparr>"

section \<open>The audit runner (\<open>scripts/run_parallel.py\<close>)\<close>


datatype ps_error = NoSuchProcess | AccessDenied








subsection \<open>A system for examples\<close>



section \<open>The discovery run (\<open>main\<close> of \<open>scripts/discover.py\<close>)\<close>

text \<open>
  \<open>main\<close> from the point where the configuration has been read and the providers
  have been built: its inputs are the keywords, the providers, \<open>--max-results\<close> and
  \<open>--dry-run\<close>. The disk is what the output path meets: whether its directory can
  be created and the file opened for writing, and the lines written. The usage
  table only feeds the log and is left out.
\<close>

record disk =
  writable :: bool
  written :: "string list option"

text \<open>The loop \<open>for prov in providers\<close>, for one keyword.\<close>

fun each_provider ::
    "provider list \<Rightarrow> string \<Rightarrow> int \<Rightarrow> string set \<Rightarrow> world
      \<Rightarrow> ((py_error + provider list \<times> string set) \<times> world) option" where
  "each_provider [] kw max_results all_domains w = Some (Inr ([], all_domains), w)"
| "each_provider (prov # providers) kw max_results all_domains w =
     (if \<not> under_quota prov then
        (case each_provider providers kw max_results all_domains w of
           None \<Rightarrow> None
         | Some (Inl e, w') \<Rightarrow> Some (Inl e, w')
         | Some (Inr (providers', all_domains'), w') \<Rightarrow>
             Some (Inr (prov # providers', all_domains'), w'))
      else
        (case query prov kw max_results w of
           None \<Rightarrow> None
         | Some (Inl e, prov', w') \<Rightarrow> Some (Inl e, w')
         | Some (Inr res, prov', w') \<Rightarrow>
             (case each_provider providers kw max_results
                     (all_domains \<union> set (unique_sorted res)) w' of
                None \<Rightarrow> None
              | Some (Inl e, w'') \<Rightarrow> Some (Inl e, w'')
              | Some (Inr (providers', all_domains'), w'') \<Rightarrow>
                  Some (Inr (prov' # providers', all_domains'), w''))))"

text \<open>The loop \<open>for kw in keywords\<close>.\<close>

fun each_keyword ::
    "string list \<Rightarrow> provider list \<Rightarrow> int \<Rightarrow> string set \<Rightarrow> world
      \<Rightarrow> ((py_error + string set) \<times> world) option" where
  "each_keyword [] providers max_results all_domains w = Some (Inr all_domains, w)"
| "each_keyword (kw # keywords) providers max_results all_domains w =
     (case each_provider providers kw max_results all_domains w of
        None \<Rightarrow> None
      | Some (Inl e, w') \<Rightarrow> Some (Inl e, w')
      | Some (Inr (providers', all_domains'), w') \<Rightarrow>
          each_keyword keywords providers' max_results all_domains' w')"

text \<open>
  \<open>main\<close>: the two exits on an empty configuration, the loops, and only then the
  directory and the file. \<open>mkdir\<close> and \<open>open\<close> raise \<open>PermissionError\<close> on a path
  that cannot be written.
\<close>

definition main ::
    "string list \<Rightarrow> provider list \<Rightarrow> int \<Rightarrow> bool \<Rightarrow> world \<times> disk
      \<Rightarrow> ((py_error + unit) \<times> world \<times> disk) option" where
  "main keywords providers max_results dry_run st =
     (case st of (w, d) \<Rightarrow>
        if keywords = [] then Some (Inl (SystemExit 2), w, d)
        else if providers = [] then Some (Inl (SystemExit 3), w, d)
        else
          (case each_keyword keywords providers max_results {} w of
             None \<Rightarrow> None
           | Some (Inl e, w') \<Rightarrow> Some (Inl e, w', d)
           | Some (Inr all_domains, w') \<Rightarrow>
               (let out_list = sorted_list_of_set all_domains
                in if \<not> dry_run then
                     (if \<not> writable d then Some (Inl PermissionError, w', d)
                      else Some (Inr (), w', d\<lparr>written := Some out_list\<rparr>))
                   else Some (Inr (), w', d))))"

section \<open>Properties of the normaliser\<close>

lemma py_split1_not_Nil: "py_split1 sep s \<noteq> []"
  by (simp add: py_split1_def split: option.split)

lemma py_find_single:
  "py_find [c] s = (if c \<in> set s then Some (length (takeWhile (\<lambda>x. x \<noteq> c) s)) else None)"
  by (induction s) (auto simp: py_startswith_def)

lemma hd_split1_single: "hd (py_split1 [c] s) = takeWhile (\<lambda>x. x \<noteq> c) s"
proof (cases "c \<in> set s")
  case True
  then show ?thesis
    by (simp add: py_split1_def py_find_single takeWhile_eq_take [symmetric])
next
  case False
  then have sp: "py_split1 [c] s = [s]"
    by (simp add: py_split1_def py_find_single)
  from False have tw: "takeWhile (\<lambda>x. x \<noteq> c) s = s"
    by auto
  show ?thesis
    by (simp only: sp list.sel tw)
qed

lemma py_find_slashes:
  "py_find ''//'' s = None \<Longrightarrow> after_first_slashes s = None"
  "py_find ''//'' s = Some i \<Longrightarrow> after_first_slashes s = Some (drop (i + 2) s)"
  by (induction s arbitrary: i rule: after_first_slashes.induct)
     (auto simp: py_startswith_def split: if_splits)

lemma last_split1_slashes: "last (py_split1 ''//'' s) = strip_scheme s"
  by (cases "py_find ''//'' s") (simp_all add: py_split1_def strip_scheme_def py_find_slashes)

lemma strip_www_eq: "strip_www s = (if py_startswith ''www.'' s then drop 4 s else s)"
  by (auto simp: strip_www_def py_startswith_def split: list.splits)

lemma normalize_domain_spec: "normalize_domain raw = normalize_spec raw"
  by (simp add: normalize_domain_def normalize_spec_def Let_def hd_split1_single
      last_split1_slashes strip_www_eq truncate_at_def)

lemma of_char_py_lower_char:
  "(of_char (py_lower_char c) :: nat) =
     (if (65 \<le> (of_char c :: nat) \<and> (of_char c :: nat) \<le> 90)
         \<or> (192 \<le> (of_char c :: nat) \<and> (of_char c :: nat) \<le> 222 \<and> (of_char c :: nat) \<noteq> 215)
      then of_char c + 32 else of_char c)"
  unfolding py_lower_char_def Let_def by auto

lemma py_lower_char_idem: "py_lower_char (py_lower_char c) = py_lower_char c"
proof (rule of_char_eqI [where ?'a = nat])
  show "(of_char (py_lower_char (py_lower_char c)) :: nat) = of_char (py_lower_char c)"
    by (simp add: of_char_py_lower_char)
qed

lemma py_lower_char_eq_slash: "py_lower_char c = CHR ''/'' \<Longrightarrow> c = CHR ''/''"
proof (rule of_char_eqI [where ?'a = nat])
  assume "py_lower_char c = CHR ''/''"
  then have "(of_char (py_lower_char c) :: nat) = 47" by simp
  then show "(of_char c :: nat) = of_char CHR ''/''"
    by (simp add: of_char_py_lower_char split: if_splits)
qed

lemma py_lower_char_eq_colon: "py_lower_char c = CHR '':'' \<Longrightarrow> c = CHR '':''"
proof (rule of_char_eqI [where ?'a = nat])
  assume "py_lower_char c = CHR '':''"
  then have "(of_char (py_lower_char c) :: nat) = 58" by simp
  then show "(of_char c :: nat) = of_char CHR '':''"
    by (simp add: of_char_py_lower_char split: if_splits)
qed

lemma set_strip_www: "set (strip_www s) \<subseteq> set s"
  by (auto simp: strip_www_eq dest: in_set_dropD)

lemma host_chars_normalize: "host_chars (normalize_domain x)"
proof -
  let ?t = "truncate_at CHR '':'' (truncate_at CHR ''/'' (strip_scheme (py_strip x)))"
  have t: "c \<noteq> CHR ''/'' \<and> c \<noteq> CHR '':''" if "c \<in> set ?t" for c
    using that by (auto simp: truncate_at_def dest: set_takeWhileD)
  have "c \<noteq> CHR ''/'' \<and> c \<noteq> CHR '':'' \<and> py_lower_char c = c" if "c \<in> set (py_lower ?t)" for c
  proof -
    from that obtain b where b: "b \<in> set ?t" and c: "c = py_lower_char b"
      by (auto simp: py_lower_def)
    from t [OF b] c show ?thesis
      using py_lower_char_eq_slash [of b] py_lower_char_eq_colon [of b]
      by (auto simp: py_lower_char_idem)
  qed
  then show ?thesis
    unfolding host_chars_def normalize_domain_spec normalize_spec_def
    using set_strip_www by blast
qed

lemma after_first_slashes_None: "CHR ''/'' \<notin> set s \<Longrightarrow> after_first_slashes s = None"
  by (induction s rule: after_first_slashes.induct) auto

lemma set_py_strip: "set (py_strip s) \<subseteq> set s"
  unfolding py_strip_def py_rstrip_def py_lstrip_def
  by (auto dest!: set_dropWhileD)

lemma normalize_host_chars:
  assumes "host_chars m"
  shows "normalize_domain m = strip_www (py_strip m)"
proof -
  define d where "d = py_strip m"
  have h: "c \<noteq> CHR ''/'' \<and> c \<noteq> CHR '':'' \<and> py_lower_char c = c" if "c \<in> set d" for c
  proof -
    from that have "c \<in> set m"
      using set_py_strip [of m] unfolding d_def by blast
    with assms show ?thesis
      unfolding host_chars_def by blast
  qed
  have "CHR ''/'' \<notin> set d"
    using h by blast
  then have 1: "strip_scheme d = d"
    by (simp add: strip_scheme_def after_first_slashes_None)
  have 2: "truncate_at CHR ''/'' d = d"
    unfolding truncate_at_def using h by (intro takeWhile_eq_all_conv [THEN iffD2]) blast
  have 3: "truncate_at CHR '':'' d = d"
    unfolding truncate_at_def using h by (intro takeWhile_eq_all_conv [THEN iffD2]) blast
  have 4: "py_lower d = d"
    unfolding py_lower_def using h by (intro map_idI) blast
  have "normalize_spec m = strip_www (py_lower (truncate_at CHR '':'' (truncate_at CHR ''/'' (strip_scheme d))))"
    by (simp only: normalize_spec_def d_def)
  also have "\<dots> = strip_www d"
    by (simp only: 1 2 3 4)
  finally show ?thesis
    by (simp only: normalize_domain_spec d_def)
qed

lemma length_dropWhile_same: "length (dropWhile P s) = length s \<Longrightarrow> dropWhile P s = s"
proof -
  assume h: "length (dropWhile P s) = length s"
  have "length (takeWhile P s) + length (dropWhile P s) = length s"
    by (metis length_append takeWhile_dropWhile_id)
  with h have "takeWhile P s = []" by simp
  then show ?thesis by (metis append_Nil takeWhile_dropWhile_id)
qed

lemma length_py_lstrip: "length (py_lstrip s) \<le> length s"
  by (simp add: py_lstrip_def length_dropWhile_le)

lemma length_py_rstrip: "length (py_rstrip s) \<le> length s"
  using length_dropWhile_le [of py_isspace "rev s"] by (simp add: py_rstrip_def)

lemma length_py_strip: "length (py_strip s) \<le> length s"
  using length_py_rstrip [of "py_lstrip s"] length_py_lstrip [of s]
  by (simp add: py_strip_def)

lemma py_strip_same: 
  assumes "length (py_strip s) = length s"
  shows "py_strip s = s"
proof -
  from assms length_py_rstrip [of "py_lstrip s"] length_py_lstrip [of s]
  have l: "length (py_lstrip s) = length s" and r: "length (py_rstrip (py_lstrip s)) = length (py_lstrip s)"
    by (simp_all add: py_strip_def)
  from l have 1: "py_lstrip s = s"
    by (simp add: py_lstrip_def length_dropWhile_same)
  from r 1 have "length (dropWhile py_isspace (rev s)) = length (rev s)"
    by (simp add: py_rstrip_def)
  then have "dropWhile py_isspace (rev s) = rev s"
    by (rule length_dropWhile_same)
  with 1 show ?thesis
    by (simp add: py_strip_def py_rstrip_def)
qed

lemma length_strip_www: "length (strip_www s) \<le> length s"
  by (simp add: strip_www_eq)

lemma strip_www_same: "strip_www s = s \<longleftrightarrow> \<not> py_startswith ''www.'' s"
proof (cases "py_startswith ''www.'' s")
  case True
  then have "length (take (length ''www.'') s) = length ''www.''"
    unfolding py_startswith_def by (rule arg_cong)
  then have "length s \<ge> 4"
    by simp
  then have "length (drop 4 s) < length s" by simp
  then have "drop 4 s \<noteq> s" by (metis less_irrefl)
  with True show ?thesis by (simp add: strip_www_eq)
next
  case False
  then show ?thesis by (simp add: strip_www_eq)
qed

lemma normalize_twice:
  "normalize_domain (normalize_domain x) = strip_www (py_strip (normalize_domain x))"
  by (rule normalize_host_chars) (rule host_chars_normalize)

text \<open>
  Claim C3, as the code has it. The specification states that normalisation is
  idempotent for every input. The code strips whitespace only before it removes the
  scheme, and removes a single leading \<open>www.\<close>, so the property holds exactly for
  the inputs whose normalisation has no whitespace at either end and does not
  itself begin with \<open>www.\<close>:
  \<open>normalize_domain (normalize_domain x) = normalize_domain x\<close> if and only if
  \<open>normalize_domain x\<close> is unchanged by \<open>strip\<close> and does not start with \<open>www.\<close>.
\<close>

theorem normalize_domain_idempotent_iff:
  "normalize_domain (normalize_domain x) = normalize_domain x \<longleftrightarrow>
     py_strip (normalize_domain x) = normalize_domain x \<and>
     \<not> py_startswith ''www.'' (normalize_domain x)"
proof -
  let ?n = "normalize_domain x"
  show ?thesis
  proof
    assume eq: "normalize_domain ?n = ?n"
    then have "length (strip_www (py_strip ?n)) = length ?n"
      by (simp add: normalize_twice)
    with length_strip_www [of "py_strip ?n"] length_py_strip [of ?n]
    have "length (py_strip ?n) = length ?n" by simp
    then have s: "py_strip ?n = ?n" by (rule py_strip_same)
    with eq have "strip_www ?n = ?n" by (simp add: normalize_twice)
    with s show "py_strip ?n = ?n \<and> \<not> py_startswith ''www.'' ?n"
      by (simp add: strip_www_same)
  next
    assume "py_strip ?n = ?n \<and> \<not> py_startswith ''www.'' ?n"
    then show "normalize_domain ?n = ?n"
      by (simp add: normalize_twice strip_www_same)
  qed
qed

text \<open>
  The criterion of C3 at the specification's own example: its normalisation
  \<open>example.com\<close> has no outer whitespace and no leading \<open>www.\<close>, so normalising it
  again changes nothing.
\<close>

theorem normalize_domain_idempotent_iff_witness:
  "normalize_domain (normalize_domain ''https://WWW.Example.COM:443/path'') =
     normalize_domain ''https://WWW.Example.COM:443/path''"
proof -
  have "py_strip (normalize_domain ''https://WWW.Example.COM:443/path'') =
          normalize_domain ''https://WWW.Example.COM:443/path'' \<and>
        \<not> py_startswith ''www.'' (normalize_domain ''https://WWW.Example.COM:443/path'')"
    by code_simp
  then show ?thesis
    by (rule iffD2 [OF normalize_domain_idempotent_iff])
qed

text \<open>
  Claim C3 as the specification states it fails: \<open>www.www.a.com\<close> normalises to
  \<open>www.a.com\<close>, and that to \<open>a.com\<close>.
\<close>

theorem normalize_domain_not_idempotent:
  "normalize_domain (normalize_domain ''www.www.a.com'') \<noteq>
     normalize_domain ''www.www.a.com''"
  by code_simp

text \<open>
  Claim C9. \<open>normalize_domain\<close> is, on the input stripped of outer whitespace, the
  composition of the specification's steps: everything up to and including the
  first \<open>//\<close> is discarded, the rest is truncated at the first \<open>/\<close> and then at the
  first \<open>:\<close>, lowercased, and one leading \<open>www.\<close> is removed. The two indexings of
  the code cannot fail, since \<open>split\<close> never returns an empty list, so the function
  returns for every string; a string of spaces only gives the empty string;
  \<open>https://WWW.Example.COM:443/path\<close> gives \<open>example.com\<close> and the empty string
  gives the empty string.
\<close>

theorem normalize_domain_steps:
  "normalize_domain raw =
     strip_www (py_lower (truncate_at CHR '':''
       (truncate_at CHR ''/'' (strip_scheme (py_strip raw)))))
   \<and> py_split1 ''//'' s \<noteq> [] \<and> py_split1 ''/'' s \<noteq> [] \<and> py_split1 '':'' s \<noteq> []
   \<and> normalize_domain (replicate n CHR '' '') = []
   \<and> normalize_domain ''https://WWW.Example.COM:443/path'' = ''example.com''
   \<and> normalize_domain [] = []"
proof -
  have 1: "normalize_domain raw =
     strip_www (py_lower (truncate_at CHR '':''
       (truncate_at CHR ''/'' (strip_scheme (py_strip raw)))))"
    by (simp only: normalize_domain_spec normalize_spec_def)
  have "dropWhile py_isspace (replicate n CHR '' '') = []"
    by (simp add: py_isspace_def)
  then have "py_strip (replicate n CHR '' '') = []"
    by (simp add: py_strip_def py_lstrip_def py_rstrip_def)
  then have 2: "normalize_domain (replicate n CHR '' '') = []"
    by (simp add: normalize_domain_spec normalize_spec_def strip_scheme_def
        truncate_at_def py_lower_def strip_www_def)
  have 3: "normalize_domain ''https://WWW.Example.COM:443/path'' = ''example.com''"
    by code_simp
  have 4: "normalize_domain [] = []"
    by code_simp
  from 1 2 3 4 show ?thesis
    by (simp only: py_split1_not_Nil not_False_eq_True simp_thms)
qed

section \<open>Properties of \<open>unique_sorted\<close>\<close>

lemma unique_sorted_set:
  "set (unique_sorted ds) =
     {normalize_domain d | d. d \<in> set ds \<and> normalize_domain d \<noteq> []}"
  by (auto simp: unique_sorted_def)

lemma unique_sorted_sorted: "sorted (unique_sorted ds) \<and> distinct (unique_sorted ds)"
  by (simp add: unique_sorted_def)

text \<open>
  Claim C4 at the input of the repository's own test
  (\<open>tests/test_discover.py\<close>, lines 88 to 98, "Should filter out invalid domains"),
  which expects \<open>also-valid.org\<close> and \<open>valid.com\<close> only. \<open>unique_sorted\<close> sorts and
  removes duplicates and empty normalisations, but it validates nothing: the
  literal address, the bare word and \<open>localhost\<close> all stay in the result.
\<close>

theorem unique_sorted_keeps_invalid:
  "unique_sorted [''https://valid.com'', ''https://localhost'', ''http://127.0.0.1'',
      ''invalid'', ''also-valid.org''] =
   [''127.0.0.1'', ''also-valid.org'', ''invalid'', ''localhost'', ''valid.com'']"
  by code_simp

section \<open>Properties of \<open>backoff_delays\<close>\<close>

lemma backoff_loop_append:
  "backoff_loop n max_s delays cur = delays @ backoff_loop n max_s [] cur"
proof (induction n arbitrary: delays cur)
  case 0
  show ?case by simp
next
  case (Suc n)
  have "backoff_loop (Suc n) max_s delays cur =
          (delays @ [cur]) @ backoff_loop n max_s [] (min max_s (cur * 2))"
    using Suc.IH [of "delays @ [cur]"] by simp
  also have "\<dots> = delays @ backoff_loop (Suc n) max_s [] cur"
    using Suc.IH [of "[cur]"] by simp
  finally show ?case .
qed

lemma backoff_loop_length: "length (backoff_loop n max_s delays cur) = length delays + n"
  by (induction n arbitrary: delays cur) simp_all

lemma backoff_delays_length:
  "int (length (backoff_delays base max_s attempts)) = max (attempts - 1) 0"
  by (simp add: backoff_delays_def backoff_loop_length)

lemma capped_double:
  fixes cur max_s :: real
  assumes "0 < cur" "cur \<le> max_s"
  shows "min max_s (min max_s (cur * 2) * 2 ^ i) = min max_s (cur * 2 ^ Suc i)"
proof -
  have p: "(1::real) \<le> 2 ^ i" by simp
  from assms have "0 \<le> max_s" by simp
  with p have m: "max_s * 1 \<le> max_s * 2 ^ i"
    by (intro mult_left_mono)
  from assms p have c: "(cur * 2) * 1 \<le> (cur * 2) * 2 ^ i"
    by (intro mult_left_mono) simp_all
  show ?thesis
  proof (cases "max_s \<le> cur * 2")
    case True
    with c have "max_s \<le> cur * 2 ^ Suc i" by (simp add: mult.assoc)
    with True m show ?thesis by (simp add: min_def)
  next
    case False
    then show ?thesis by (simp add: min_def mult.assoc)
  qed
qed

lemma backoff_loop_geometric:
  "0 < cur \<Longrightarrow> cur \<le> max_s \<Longrightarrow>
   backoff_loop n max_s [] cur = map (\<lambda>i. min max_s (cur * 2 ^ i)) [0..<n]"
proof (induction n arbitrary: cur)
  case 0
  show ?case by simp
next
  case (Suc n)
  let ?c = "min max_s (cur * 2)"
  from Suc.prems have c: "0 < ?c" "?c \<le> max_s" by simp_all
  have "backoff_loop (Suc n) max_s [] cur = [cur] @ backoff_loop n max_s [] ?c"
    using backoff_loop_append [of n max_s "[cur]" ?c] by simp
  also have "\<dots> = cur # map (\<lambda>i. min max_s (?c * 2 ^ i)) [0..<n]"
    using Suc.IH [OF c] by simp
  also have "map (\<lambda>i. min max_s (?c * 2 ^ i)) [0..<n] =
             map (\<lambda>i. min max_s (cur * 2 ^ Suc i)) [0..<n]"
    using capped_double [OF Suc.prems] by simp
  also have "cur # map (\<lambda>i. min max_s (cur * 2 ^ Suc i)) [0..<n] =
             map (\<lambda>i. min max_s (cur * 2 ^ i)) [0..<Suc n]"
    using Suc.prems by (simp add: upt_rec [of 0 "Suc n"] map_Suc_upt [symmetric] del: upt_Suc)
  finally show ?case .
qed

lemma backoff_delays_geometric:
  assumes "0 < base" and "base \<le> max_s"
  shows "backoff_delays base max_s attempts =
     map (\<lambda>i. min max_s (base * 2 ^ i)) [0..<nat (attempts - 1)]"
proof -
  have "nat (max 0 (attempts - 1)) = nat (attempts - 1)" by simp
  with assms show ?thesis
    by (simp only: backoff_delays_def backoff_loop_geometric)
qed

lemma backoff_delays_example: "backoff_delays 0.5 2 3 = [0.5, 1]"
  by (simp add: backoff_delays_def numeral_2_eq_2)

text \<open>
  Claim C5 at a base above the cap. The loop appends \<open>cur\<close> before it takes the
  minimum with \<open>max_s\<close>, so the first delay is the base whatever the cap is: with base
  4 and cap 2 the delays are 4 and 2, and the first is above the cap. (For a base
  between 0 and the cap the sequence is the capped geometric one, lemma
  \<open>backoff_delays_geometric\<close>, and its length is always \<open>max (attempts - 1) 0\<close>.)
\<close>

theorem backoff_delays_first_uncapped: "backoff_delays 4 2 3 = [4, 2]"
  by (simp add: backoff_delays_def numeral_2_eq_2)

section \<open>Properties of the providers\<close>









lemma collect_links_prefix:
  "collect_links items (results @ acc) = results @ collect_links items acc"
proof (induction items arbitrary: acc)
  case Nil
  show ?case by simp
next
  case (Cons it items)
  show ?case
  proof (cases "py_or (item_link it) (item_formattedUrl it)")
    case None
    then show ?thesis by (simp add: Cons.IH)
  next
    case (Some l)
    then show ?thesis
      using Cons.IH [of acc] Cons.IH [of "acc @ [l]"] by simp
  qed
qed

lemma collect_links_append: "collect_links items results = results @ collect_links items []"
  using collect_links_prefix [of items results "[]"] by simp

lemma collect_urls_prefix:
  "collect_urls rs (results @ acc) = results @ collect_urls rs acc"
proof (induction rs arbitrary: acc)
  case Nil
  show ?case by simp
next
  case (Cons r rs)
  show ?case
  proof (cases "py_or (py_or (hit_href r) (hit_link r)) (hit_url r)")
    case None
    then show ?thesis by (simp add: Cons.IH)
  next
    case (Some u)
    then show ?thesis
      using Cons.IH [of acc] Cons.IH [of "acc @ [u]"] by simp
  qed
qed

lemma collect_urls_append: "collect_urls rs results = results @ collect_urls rs []"
  using collect_urls_prefix [of rs results "[]"] by simp






lemma ddg_attempts_failures:
  "a + n \<le> length delays \<Longrightarrow>
   (\<forall>i < n. raises (ddg_runs w (ddg_calls w + i)) \<and> 0 \<le> delays ! (a + i)) \<Longrightarrow>
   \<not> raises (ddg_runs w (ddg_calls w + n)) \<Longrightarrow>
   ddg_attempts delays a results w =
     (Inr (results @ concat (map (\<lambda>i. collect_urls (hits (ddg_runs w (ddg_calls w + i))) []) [0..<Suc n])),
      w\<lparr>ddg_calls := ddg_calls w + Suc n\<rparr>)"
proof (induction n arbitrary: a results w)
  case 0
  then show ?case
    by (subst ddg_attempts.simps) (simp add: Let_def collect_urls_append [of _ results])
next
  case (Suc n)
  let ?w = "w\<lparr>ddg_calls := ddg_calls w + 1\<rparr>"
  let ?r = "collect_urls (hits (ddg_runs w (ddg_calls w))) results"
  from Suc.prems have first: "raises (ddg_runs w (ddg_calls w))" "0 \<le> delays ! a" "a + 1 \<le> length delays"
    by (auto dest: spec [of _ 0])
  then have step: "ddg_attempts delays a results w = ddg_attempts delays (a + 1) ?r ?w"
    by (subst ddg_attempts.simps) (simp add: Let_def)
  have "ddg_attempts delays (a + 1) ?r ?w =
     (Inr (?r @ concat (map (\<lambda>i. collect_urls (hits (ddg_runs ?w (ddg_calls ?w + i))) []) [0..<Suc n])),
      ?w\<lparr>ddg_calls := ddg_calls ?w + Suc n\<rparr>)"
  proof (rule Suc.IH)
    show "a + 1 + n \<le> length delays" using Suc.prems(1) by simp
    show "\<forall>i<n. raises (ddg_runs ?w (ddg_calls ?w + i)) \<and> 0 \<le> delays ! (a + 1 + i)"
      using Suc.prems(2) by (auto dest: spec [of _ "Suc i" for i])
    show "\<not> raises (ddg_runs ?w (ddg_calls ?w + n))"
      using Suc.prems(3) by simp
  qed
  also have "map (\<lambda>i. collect_urls (hits (ddg_runs ?w (ddg_calls ?w + i))) []) [0..<Suc n] =
             map (\<lambda>i. collect_urls (hits (ddg_runs w (ddg_calls w + Suc i))) []) [0..<Suc n]"
    by simp
  also have "\<dots> = map (\<lambda>i. collect_urls (hits (ddg_runs w (ddg_calls w + i))) []) (map Suc [0..<Suc n])"
    by (simp only: map_map comp_def)
  finally show ?case
    unfolding step
    by (simp add: map_Suc_upt upt_rec [of 0 "Suc (Suc n)"] collect_urls_append [of _ results] del: upt_Suc)
qed









section \<open>Properties of the audit runner\<close>



section \<open>Properties of the discovery run\<close>

lemma ddg_cfg_flaky_query:
  "ddg_query ddg_cfg ''kw'' 5 flaky_world =
     (Inr [''https://x.com/a'', ''https://x.com/a'', ''https://y.com/b''],
      ddg_cfg\<lparr>queries_made := 1\<rparr>, flaky_world\<lparr>ddg_calls := 2\<rparr>)"
proof -
  have d: "provider_delays ddg_cfg = [0.001]"
    by (simp add: provider_delays_def ddg_cfg_def backoff_delays_def)
  have "ddg_attempts [0.001] 0 [] flaky_world =
     (Inr ([] @ concat (map (\<lambda>i. collect_urls (hits (ddg_runs flaky_world (ddg_calls flaky_world + i))) [])
        [0..<Suc 1])), flaky_world\<lparr>ddg_calls := ddg_calls flaky_world + Suc 1\<rparr>)"
    by (rule ddg_attempts_failures)
       (simp_all add: flaky_world_def ok_world_def flaky_runs_def)
  then have "ddg_attempts (provider_delays ddg_cfg) 0 [] flaky_world =
     (Inr [''https://x.com/a'', ''https://x.com/a'', ''https://y.com/b''],
      flaky_world\<lparr>ddg_calls := 2\<rparr>)"
    by (simp add: d flaky_world_def ok_world_def flaky_runs_def py_or_def truthy_def upt_rec [of 0])
  then show ?thesis
    by (simp add: ddg_query_def can_continue_def ddg_cfg_def flaky_world_def ok_world_def
        py_slice_to_def)
qed

text \<open>
  Claim C8 on an output path that cannot be written: one keyword, the library
  provider. \<open>main\<close> first runs the query, two iterations of the search library,
  and only then meets the directory: it ends in \<open>PermissionError\<close> with the
  search done and its result lost. A check before the loops would have ended the
  run with no call made.
\<close>

theorem main_checks_output_last:
  "main [''kw''] [DuckDuckGo ddg_cfg] 5 False (flaky_world, \<lparr>writable = False, written = None\<rparr>) =
     Some (Inl PermissionError, flaky_world\<lparr>ddg_calls := 2\<rparr>,
           \<lparr>writable = False, written = None\<rparr>)"
proof -
  have "under_quota (DuckDuckGo ddg_cfg)"
    by (simp add: can_continue_def ddg_cfg_def)
  then have "each_provider [DuckDuckGo ddg_cfg] ''kw'' 5 {} flaky_world =
      Some (Inr ([DuckDuckGo (ddg_cfg\<lparr>queries_made := 1\<rparr>)],
                 {} \<union> set (unique_sorted [''https://x.com/a'', ''https://x.com/a'', ''https://y.com/b''])),
            flaky_world\<lparr>ddg_calls := 2\<rparr>)"
    by (simp add: ddg_cfg_flaky_query)
  then show ?thesis
    by (simp add: main_def)
qed

end
